theory Spec2Isabelle
  imports Main "HOL-Library.Sublist"
begin

section \<open>Python values and their textual forms\<close>

text \<open>
  The rows that the database driver hands to \<^verbatim>\<open>dbsync.py\<close> hold Python objects, and the
  program turns them into text with \<^verbatim>\<open>str.format\<close>, \<^verbatim>\<open>json.dumps\<close> and
  \<^verbatim>\<open>isoformat\<close>. The values modelled are \<^verbatim>\<open>None\<close>, booleans, integers, strings, lists,
  dictionaries with string keys and naive \<^verbatim>\<open>datetime.datetime\<close> objects. A character
  stands for a code point below 256.
\<close>

record datetime =
  year :: nat
  month :: nat
  day :: nat
  hour :: nat
  minute :: nat
  second :: nat
  microsecond :: nat

datatype pyval =
    PNone
  | PBool bool
  | PInt int
  | PStr string
  | PList "pyval list"
  | PDict "(string \<times> pyval) list"
  | PDatetime datetime

datatype error =
    RuntimeError string
  | TypeError
  | AttributeError
  | IndexError
  | DatabaseError

text \<open>\<^verbatim>\<open>sep.join(parts)\<close>\<close>

fun join :: "string \<Rightarrow> string list \<Rightarrow> string" where
  "join sep [] = []"
| "join sep [s] = s"
| "join sep (s # t # ts) = s @ sep @ join sep (t # ts)"

definition digit_char :: "nat \<Rightarrow> char" where
  "digit_char d = char_of (48 + d)"

fun str_nat :: "nat \<Rightarrow> string" where
  "str_nat n = (if n < 10 then [digit_char n] else str_nat (n div 10) @ [digit_char (n mod 10)])"

declare str_nat.simps [simp del]

definition str_int :: "int \<Rightarrow> string" where
  "str_int i = (if i < 0 then CHR ''-'' # str_nat (nat (- i)) else str_nat (nat i))"

text \<open>\<^verbatim>\<open>'%0wd' % n\<close> for a natural number.\<close>

definition zero_pad :: "nat \<Rightarrow> nat \<Rightarrow> string" where
  "zero_pad w n = replicate (w - length (str_nat n)) CHR ''0'' @ str_nat n"

definition hex_char :: "nat \<Rightarrow> char" where
  "hex_char d = (if d < 10 then char_of (48 + d) else char_of (87 + d))"

definition hex2 :: "char \<Rightarrow> string" where
  "hex2 c = [hex_char (of_char c div 16), hex_char (of_char c mod 16)]"

text \<open>
  \<^verbatim>\<open>repr\<close> of a string: double quotes when the text holds a single quote and no double
  quote, single quotes otherwise; the backslash, the chosen quote and the characters that
  are not printable are escaped.
\<close>

definition printable :: "char \<Rightarrow> bool" where
  "printable c = (let n = (of_char c :: nat) in 32 \<le> n \<and> n < 127 \<or> 161 \<le> n \<and> n \<noteq> 173)"

definition repr_char :: "char \<Rightarrow> char \<Rightarrow> string" where
  "repr_char q c =
     (if c = q \<or> c = CHR 0x5C then [CHR 0x5C, c]
      else if c = CHR 0x09 then [CHR 0x5C, CHR ''t'']
      else if c = CHR 0x0A then [CHR 0x5C, CHR ''n'']
      else if c = CHR 0x0D then [CHR 0x5C, CHR ''r'']
      else if printable c then [c]
      else [CHR 0x5C, CHR ''x''] @ hex2 c)"

definition repr_str :: "string \<Rightarrow> string" where
  "repr_str s =
     (let q = (if CHR 0x27 \<in> set s \<and> CHR 0x22 \<notin> set s then CHR 0x22 else CHR 0x27)
      in [q] @ concat (map (repr_char q) s) @ [q])"

definition repr_datetime :: "datetime \<Rightarrow> string" where
  "repr_datetime d =
     ''datetime.datetime('' @
     join '', '' (map str_nat
       ([year d, month d, day d, hour d, minute d] @
        (if microsecond d \<noteq> 0 then [second d, microsecond d]
         else if second d \<noteq> 0 then [second d] else []))) @ '')''"

text \<open>\<^verbatim>\<open>datetime.isoformat(sep)\<close>\<close>

definition isoformat_sep :: "char \<Rightarrow> datetime \<Rightarrow> string" where
  "isoformat_sep sep d =
     zero_pad 4 (year d) @ ''-'' @ zero_pad 2 (month d) @ ''-'' @ zero_pad 2 (day d) @ [sep] @
     zero_pad 2 (hour d) @ '':'' @ zero_pad 2 (minute d) @ '':'' @ zero_pad 2 (second d) @
     (if microsecond d \<noteq> 0 then ''.'' @ zero_pad 6 (microsecond d) else [])"

fun py_repr :: "pyval \<Rightarrow> string" where
  "py_repr PNone = ''None''"
| "py_repr (PBool b) = (if b then ''True'' else ''False'')"
| "py_repr (PInt i) = str_int i"
| "py_repr (PStr s) = repr_str s"
| "py_repr (PList xs) = ''['' @ join '', '' (map py_repr xs) @ '']''"
| "py_repr (PDict kvs) =
     ''{'' @ join '', '' (map (\<lambda>kv. repr_str (fst kv) @ '': '' @ py_repr (snd kv)) kvs) @ ''}''"
| "py_repr (PDatetime d) = repr_datetime d"

text \<open>\<^verbatim>\<open>str(v)\<close>, which is also what \<^verbatim>\<open>'{}'.format(v)\<close> gives for these values.\<close>

definition py_str :: "pyval \<Rightarrow> string" where
  "py_str v = (case v of PStr s \<Rightarrow> s | PDatetime d \<Rightarrow> isoformat_sep CHR '' '' d | _ \<Rightarrow> py_repr v)"

text \<open>\<^verbatim>\<open>str(t)\<close> of a tuple \<^verbatim>\<open>t\<close>: one element keeps a trailing comma.\<close>

definition str_tuple :: "pyval list \<Rightarrow> string" where
  "str_tuple vs =
     (case vs of [v] \<Rightarrow> ''('' @ py_repr v @ '',)''
      | _ \<Rightarrow> ''('' @ join '', '' (map py_repr vs) @ '')'')"

text \<open>\<^verbatim>\<open>value.isoformat()\<close>: only a datetime has the method.\<close>

definition isoformat :: "pyval \<Rightarrow> error + string" where
  "isoformat v = (case v of PDatetime d \<Rightarrow> Inr (isoformat_sep CHR ''T'' d) | _ \<Rightarrow> Inl AttributeError)"

text \<open>
  \<^verbatim>\<open>json.dumps(value)\<close> with the default separators and \<^verbatim>\<open>ensure_ascii\<close>: every
  character outside the range from space to tilde is escaped.
\<close>

definition json_char :: "char \<Rightarrow> string" where
  "json_char c =
     (if c = CHR 0x22 \<or> c = CHR 0x5C then [CHR 0x5C, c]
      else if c = CHR 0x0A then [CHR 0x5C, CHR ''n'']
      else if c = CHR 0x0D then [CHR 0x5C, CHR ''r'']
      else if c = CHR 0x09 then [CHR 0x5C, CHR ''t'']
      else if c = CHR 0x08 then [CHR 0x5C, CHR ''b'']
      else if c = CHR 0x0C then [CHR 0x5C, CHR ''f'']
      else if 32 \<le> (of_char c :: nat) \<and> (of_char c :: nat) < 127 then [c]
      else [CHR 0x5C, CHR ''u'', CHR ''0'', CHR ''0''] @ hex2 c)"

definition json_str :: "string \<Rightarrow> string" where
  "json_str s = [CHR 0x22] @ concat (map json_char s) @ [CHR 0x22]"

fun sequence :: "(error + 'a) list \<Rightarrow> error + 'a list" where
  "sequence [] = Inr []"
| "sequence (Inl e # rs) = Inl e"
| "sequence (Inr x # rs) = (case sequence rs of Inl e \<Rightarrow> Inl e | Inr xs \<Rightarrow> Inr (x # xs))"

fun json_dumps :: "pyval \<Rightarrow> error + string" where
  "json_dumps PNone = Inr ''null''"
| "json_dumps (PBool b) = Inr (if b then ''true'' else ''false'')"
| "json_dumps (PInt i) = Inr (str_int i)"
| "json_dumps (PStr s) = Inr (json_str s)"
| "json_dumps (PList xs) =
     (case sequence (map json_dumps xs) of
        Inl e \<Rightarrow> Inl e
      | Inr ss \<Rightarrow> Inr (''['' @ join '', '' ss @ '']''))"
| "json_dumps (PDict kvs) =
     (case sequence (map (\<lambda>kv. case json_dumps (snd kv) of
                                   Inl e \<Rightarrow> Inl e
                                 | Inr s \<Rightarrow> Inr (json_str (fst kv) @ '': '' @ s)) kvs) of
        Inl e \<Rightarrow> Inl e
      | Inr ss \<Rightarrow> Inr (''{'' @ join '', '' ss @ ''}''))"
| "json_dumps (PDatetime d) = Inl TypeError"

section \<open>Tables, constraints and the cursor\<close>

text \<open>
  \<^verbatim>\<open>class FkConstraint\<close> and \<^verbatim>\<open>class Table\<close>. The attributes that the class fills
  lazily from the catalogue (\<^verbatim>\<open>_columns\<close>, \<^verbatim>\<open>_coltypes\<close>, \<^verbatim>\<open>_foreign_keys\<close>) are
  fields holding the catalogue's answer. \<^verbatim>\<open>_foreign_tables\<close> is a dictionary, whose
  iteration order is the order of insertion: an association list.
\<close>

record FkConstraint =
  fk_table :: string
  fk_name :: string
  condef :: string

record Table =
  name :: string
  limit :: "nat option"
  ids :: "pyval list option"
  foreign_tables :: "(string \<times> pyval list) list"
  columns :: "string list"
  coltypes :: "string list"
  foreign_key_constraints :: "FkConstraint list"

text \<open>
  The cursor is the database: \<^verbatim>\<open>execute\<close> followed by iteration gives the rows of a
  query, \<^verbatim>\<open>copy_expert\<close> gives the text that the server streams. Either may fail.
  \<^verbatim>\<open>cursor.rowcount\<close> after a query is the number of rows it produced.
\<close>

record cursor =
  execute :: "string \<Rightarrow> error + pyval list list"
  copy_expert :: "string \<Rightarrow> error + string"

abbreviation nl :: string where
  "nl \<equiv> [CHR 0x0A]"

abbreviation dq :: string where
  "dq \<equiv> [CHR 0x22]"

abbreviation sq :: string where
  "sq \<equiv> [CHR 0x27]"

definition text_lines :: "string list \<Rightarrow> string" where
  "text_lines ls = concat (map (\<lambda>l. l @ nl) ls)"



definition BEGIN_TABLE_DUMP :: "string \<Rightarrow> string \<Rightarrow> string" where
  "BEGIN_TABLE_DUMP tbl cols = text_lines
     ['''', ''--'', ''-- Data for Name: '' @ tbl @ ''; Type: TABLE DATA'', ''--'', '''',
      ''COPY public.'' @ dq @ tbl @ dq @ '' ('' @ cols @ '') FROM STDIN;'']"

definition END_TABLE_DUMP :: string where
  "END_TABLE_DUMP = [CHR 0x5C] @ ''.'' @ nl"



subsection \<open>\<^verbatim>\<open>Table.ididx\<close>\<close>

text \<open>
  The counter starts at 0 and is returned at the first column named \<^verbatim>\<open>id\<close>; it is
  incremented past every other column, and returned as it stands when the loop ends.
\<close>

fun ididx_loop :: "string list \<Rightarrow> nat \<Rightarrow> nat" where
  "ididx_loop [] i = i"
| "ididx_loop (c # cs) i = (if c = ''id'' then i else ididx_loop cs (i + 1))"

definition ididx :: "Table \<Rightarrow> nat" where
  "ididx t = ididx_loop (columns t) 0"

subsection \<open>\<^verbatim>\<open>Table._stringify_value\<close> and \<^verbatim>\<open>Table._mogrify_row\<close>\<close>

definition startswith :: "string \<Rightarrow> string \<Rightarrow> bool" where
  "startswith s p = prefix p s"

definition stringify_value :: "Table \<Rightarrow> pyval \<Rightarrow> nat \<Rightarrow> error + string" where
  "stringify_value t v colidx =
     (if v = PNone then Inr ''NULL''
      else if length (coltypes t) \<le> colidx then Inl IndexError
      else
        let coltype = coltypes t ! colidx;
            quoted = (startswith coltype ''character'' \<or> startswith coltype ''geography''
                      \<or> startswith coltype ''json'');
            dumped = (if startswith coltype ''json''
                      then (case json_dumps v of Inl e \<Rightarrow> Inl e | Inr s \<Rightarrow> Inr (PStr s))
                      else Inr v)
        in case dumped of
             Inl e \<Rightarrow> Inl e
           | Inr v' \<Rightarrow>
               if startswith coltype ''timestamp''
               then (case isoformat v' of Inl e \<Rightarrow> Inl e | Inr s \<Rightarrow> Inr (sq @ s @ sq))
               else Inr (if quoted then sq @ py_str v' @ sq else py_str v'))"

definition mogrify_row :: "Table \<Rightarrow> pyval list \<Rightarrow> error + string" where
  "mogrify_row t row =
     (case sequence (map (\<lambda>(i, v). stringify_value t v i) (enumerate 0 row)) of
        Inl e \<Rightarrow> Inl e
      | Inr strrow \<Rightarrow> Inr (''('' @ join '','' strrow @ '')''))"

subsection \<open>\<^verbatim>\<open>Table.add_foreign_table\<close> and \<^verbatim>\<open>Table._build_where_clause\<close>\<close>

text \<open>
  The method mutates the table or raises. The model returns the error, if any, together
  with the table as the call leaves it.
\<close>

definition add_foreign_table :: "Table \<Rightarrow> string \<Rightarrow> pyval list option \<Rightarrow> error option \<times> Table" where
  "add_foreign_table t n new_ids =
     (if n \<in> set (map fst (foreign_tables t)) then (Some (RuntimeError ''no bueno''), t)
      else case new_ids of
             None \<Rightarrow> (Some TypeError, t)
           | Some vs \<Rightarrow> (None, t\<lparr>foreign_tables := foreign_tables t @ [(n, vs)]\<rparr>))"

definition build_where_clause :: "Table \<Rightarrow> string" where
  "build_where_clause t =
     (let wh = foldl (\<lambda>w (ftable, fids). w @ [ftable @ ''_id in '' @ str_tuple fids])
                     [] (foreign_tables t)
      in if length wh > 0 then ''WHERE '' @ join '' AND '' wh else [])"

section \<open>Dumping\<close>

text \<open>
  The output file is the list of the strings written to it, one per \<^verbatim>\<open>write\<close>, oldest
  first. A function that writes takes the file and returns it extended.
\<close>

type_synonym outfile = "string list"



subsection \<open>\<^verbatim>\<open>Table._copy\<close>\<close>

text \<open>
  A call that raises has still written what it wrote before: every function below returns
  the file as the call leaves it, together with the error or the result. A statement that
  the server refuses is taken to have streamed nothing.
\<close>

definition copy :: "Table \<Rightarrow> cursor \<Rightarrow> string \<Rightarrow> outfile \<Rightarrow> error option \<times> outfile" where
  "copy t c cols outfile =
     (let out1 = outfile @ [BEGIN_TABLE_DUMP (name t) cols];
          sql = ''COPY (SELECT '' @ cols @ '' FROM public.'' @ dq @ name t @ dq @ '' '' @
                build_where_clause t @ '') TO STDOUT''
      in case copy_expert c sql of
           Inl e \<Rightarrow> (Some e, out1)
         | Inr payload \<Rightarrow> (None, out1 @ [payload, END_TABLE_DUMP]))"

subsection \<open>\<^verbatim>\<open>Table._select_and_insert\<close>\<close>

text \<open>
  The loop over the cursor: \<open>rowcount\<close> is \<^verbatim>\<open>cursor.rowcount\<close>, \<open>rows_written\<close> the
  counter that starts at 1, \<open>captured\<close> the list \<^verbatim>\<open>ids\<close>. Reading \<^verbatim>\<open>row[self.ididx]\<close>
  beyond the end of the row raises \<^verbatim>\<open>IndexError\<close>; it and the rendering of the row come
  before anything is written for the row.
\<close>

fun insert_rows ::
  "Table \<Rightarrow> nat \<Rightarrow> pyval list list \<Rightarrow> nat \<Rightarrow> pyval list \<Rightarrow> outfile
   \<Rightarrow> (error + pyval list) \<times> outfile" where
  "insert_rows t rowcount [] rows_written captured outfile = (Inr captured, outfile)"
| "insert_rows t rowcount (row # rows) rows_written captured outfile =
     (if length row \<le> ididx t then (Inl IndexError, outfile)
      else case mogrify_row t row of
             Inl e \<Rightarrow> (Inl e, outfile)
           | Inr s \<Rightarrow>
               insert_rows t rowcount rows (rows_written + 1) (captured @ [row ! ididx t])
                 (outfile @ [s, if rows_written = rowcount then '';'' @ nl else '','' @ nl]))"

definition limit_text :: "nat option \<Rightarrow> string" where
  "limit_text l = (case l of None \<Rightarrow> ''None'' | Some n \<Rightarrow> str_nat n)"

definition select_sql :: "Table \<Rightarrow> string \<Rightarrow> string" where
  "select_sql t cols =
     ''SELECT '' @ cols @ '' FROM public.'' @ dq @ name t @ dq @ '' LIMIT '' @ limit_text (limit t)"

definition insert_header :: "Table \<Rightarrow> string \<Rightarrow> string" where
  "insert_header t cols = ''INSERT INTO '' @ name t @ '' ('' @ cols @ '') VALUES '' @ nl"

definition select_and_insert ::
  "Table \<Rightarrow> cursor \<Rightarrow> string \<Rightarrow> outfile \<Rightarrow> (error + pyval list) \<times> outfile" where
  "select_and_insert t c cols outfile =
     (let out1 = outfile @ [insert_header t cols]
      in case execute c (select_sql t cols) of
           Inl e \<Rightarrow> (Inl e, out1)
         | Inr rows \<Rightarrow>
             (case insert_rows t (length rows) rows 1 [] out1 of
                (Inl e, out2) \<Rightarrow> (Inl e, out2)
              | (Inr captured, out2) \<Rightarrow> (Inr captured, out2 @ [nl])))"

subsection \<open>\<^verbatim>\<open>Table.dump\<close>\<close>

text \<open>The table is returned as the call leaves it: \<^verbatim>\<open>ids\<close> is assigned only when the
  sampled dump returns.\<close>

definition quoted_columns :: "Table \<Rightarrow> string" where
  "quoted_columns t = join '','' (map (\<lambda>c. dq @ c @ dq) (columns t))"

definition dump :: "Table \<Rightarrow> cursor \<Rightarrow> outfile \<Rightarrow> error option \<times> Table \<times> outfile" where
  "dump t c outfile =
     (case limit t of
        None \<Rightarrow>
          (case copy t c (quoted_columns t) outfile of (r, out) \<Rightarrow> (r, t, out))
      | Some n \<Rightarrow>
          (case select_and_insert t c (quoted_columns t) outfile of
             (Inl e, out) \<Rightarrow> (Some e, t, out)
           | (Inr captured, out) \<Rightarrow> (None, t\<lparr>ids := Some captured\<rparr>, out)))"

section \<open>\<^verbatim>\<open>set_sampled_ids\<close>\<close>

text \<open>
  The two nested loops. The inner one walks the full tables for one sampled table; an
  error stops both, leaving the tables as they are at that moment.
\<close>

definition fkey_colname :: "Table \<Rightarrow> string" where
  "fkey_colname sampled_table = name sampled_table @ ''_id''"

fun restrict_full_tables :: "Table \<Rightarrow> Table list \<Rightarrow> error option \<times> Table list" where
  "restrict_full_tables sampled_table [] = (None, [])"
| "restrict_full_tables sampled_table (t # ts) =
     (if fkey_colname sampled_table \<in> set (columns t)
      then (case add_foreign_table t (name sampled_table) (ids sampled_table) of
              (Some e, t') \<Rightarrow> (Some e, t' # ts)
            | (None, t') \<Rightarrow>
                (case restrict_full_tables sampled_table ts of (r, ts') \<Rightarrow> (r, t' # ts')))
      else (case restrict_full_tables sampled_table ts of (r, ts') \<Rightarrow> (r, t # ts')))"

fun set_sampled_ids :: "Table list \<Rightarrow> Table list \<Rightarrow> error option \<times> Table list" where
  "set_sampled_ids [] full_tables = (None, full_tables)"
| "set_sampled_ids (sampled_table # rest) full_tables =
     (case restrict_full_tables sampled_table full_tables of
        (Some e, full_tables') \<Rightarrow> (Some e, full_tables')
      | (None, full_tables') \<Rightarrow> set_sampled_ids rest full_tables')"

section \<open>\<^verbatim>\<open>main\<close>\<close>



section \<open>Example data\<close>

text \<open>
  A small shop database: \<open>users\<close> is sampled with a limit of two rows, \<open>orders\<close> is
  dumped in full and has a column \<open>users_id\<close>. The cursor answers the two statements that
  a run over these tables sends and refuses every other one.
\<close>

definition users :: Table where
  "users = \<lparr>name = ''users'', limit = Some 2, ids = None, foreign_tables = [],
     columns = [''id'', ''name''], coltypes = [''integer'', ''text''],
     foreign_key_constraints = []\<rparr>"

definition users_rows :: "pyval list list" where
  "users_rows = [[PInt 1, PStr ''a''], [PInt 2, PStr ''b''], [PInt 3, PStr ''c'']]"

definition orders :: Table where
  "orders = \<lparr>name = ''orders'', limit = None, ids = None, foreign_tables = [],
     columns = [''id'', ''users_id''], coltypes = [''integer'', ''integer''],
     foreign_key_constraints =
       [\<lparr>fk_table = ''orders'', fk_name = ''orders_users_id_fkey'',
         condef = ''FOREIGN KEY (users_id) REFERENCES users(id)''\<rparr>]\<rparr>"

definition shop_cursor :: cursor where
  "shop_cursor =
     \<lparr>execute = (\<lambda>sql.
        if sql = ''SELECT '' @ dq @ ''id'' @ dq @ '','' @ dq @ ''name'' @ dq @
                 '' FROM public.'' @ dq @ ''users'' @ dq @ '' LIMIT 2''
        then Inr (take 2 users_rows) else Inl DatabaseError),
      copy_expert = (\<lambda>sql.
        if sql = ''COPY (SELECT '' @ dq @ ''id'' @ dq @ '','' @ dq @ ''users_id'' @ dq @
                 '' FROM public.'' @ dq @ ''orders'' @ dq @
                 '' WHERE users_id in (1, 2)) TO STDOUT''
        then Inr (''10'' @ [CHR 0x09] @ ''1'' @ nl @ ''11'' @ [CHR 0x09] @ ''2'' @ nl)
        else Inl DatabaseError)\<rparr>"

text \<open>A full table without a column that refers to \<open>users\<close>.\<close>

definition products :: Table where
  "products = \<lparr>name = ''products'', limit = None, ids = None, foreign_tables = [],
     columns = [''id'', ''title''], coltypes = [''integer'', ''character varying(80)''],
     foreign_key_constraints = []\<rparr>"




text \<open>A cursor whose queries produce no rows.\<close>

definition empty_cursor :: cursor where
  "empty_cursor = \<lparr>execute = (\<lambda>sql. Inr []), copy_expert = (\<lambda>sql. Inr [])\<rparr>"

text \<open>A sampled table without a column named \<^verbatim>\<open>id\<close>, holding one row.\<close>

definition tags :: Table where
  "tags = \<lparr>name = ''tags'', limit = Some 5, ids = None, foreign_tables = [],
     columns = [''name''], coltypes = [''text''], foreign_key_constraints = []\<rparr>"

definition tags_cursor :: cursor where
  "tags_cursor = \<lparr>execute = (\<lambda>sql. Inr [[PStr ''a'']]), copy_expert = (\<lambda>sql. Inr [])\<rparr>"

text \<open>A table of one column of a given declared type.\<close>

definition column_of_type :: "string \<Rightarrow> Table" where
  "column_of_type ct = \<lparr>name = ''t'', limit = None, ids = None, foreign_tables = [],
     columns = [''c''], coltypes = [ct], foreign_key_constraints = []\<rparr>"

section \<open>Rendering of values\<close>

lemma json_not_timestamp: "startswith ct ''json'' \<Longrightarrow> \<not> startswith ct ''timestamp''"
  by (auto simp: startswith_def prefix_def)

text \<open>
  Claim C6: rendering \<^verbatim>\<open>None\<close> gives the text \<^verbatim>\<open>NULL\<close>, without quotes, whatever the
  declared type of the column is (and whatever the column index is: the test comes before
  the type is looked up).
\<close>

theorem stringify_value_None: "stringify_value t PNone colidx = Inr ''NULL''"
  by (simp add: stringify_value_def)

text \<open>
  Claim C7 does not hold of the code: the prefixes that \<^verbatim>\<open>_stringify_value\<close> tests are
  \<^verbatim>\<open>character\<close>, \<^verbatim>\<open>geography\<close>, \<^verbatim>\<open>json\<close> and \<^verbatim>\<open>timestamp\<close>, and the text-like type
  \<^verbatim>\<open>text\<close> is missing from them. A string in a \<^verbatim>\<open>text\<close> column is written without quotes,
  where the same string in a \<^verbatim>\<open>character varying\<close> column is quoted, and the statement
  written for the table \<open>users\<close> of the specification, \<^verbatim>\<open>VALUES (1,a), (2,b);\<close>, cannot be
  loaded.
\<close>

theorem text_column_unquoted:
  "stringify_value (column_of_type ''text'') (PStr ''a'') 0 = Inr ''a'' \<and>
   stringify_value (column_of_type ''character varying(80)'') (PStr ''a'') 0 = Inr (sq @ ''a'' @ sq) \<and>
   mogrify_row users [PInt 1, PStr ''a''] = Inr ''(1,a)''"
  by code_simp

text \<open>
  The branches of \<^verbatim>\<open>_stringify_value\<close>, one by one, for a value other than \<^verbatim>\<open>None\<close>: the
  JSON text in quotes for a type starting with \<^verbatim>\<open>json\<close>, the ISO 8601 form in quotes for
  one starting with \<^verbatim>\<open>timestamp\<close>, \<^verbatim>\<open>str(value)\<close> in quotes for one starting with
  \<^verbatim>\<open>character\<close> or \<^verbatim>\<open>geography\<close>, and \<^verbatim>\<open>str(value)\<close> as it is for the types the tests
  do not name.
\<close>

lemma stringify_value_by_type:
  assumes "v \<noteq> PNone" and "colidx < length (coltypes t)"
  shows "stringify_value t v colidx =
     (let coltype = coltypes t ! colidx in
      if startswith coltype ''json''
      then (case json_dumps v of Inl e \<Rightarrow> Inl e | Inr s \<Rightarrow> Inr (sq @ s @ sq))
      else if startswith coltype ''timestamp''
      then (case isoformat v of Inl e \<Rightarrow> Inl e | Inr s \<Rightarrow> Inr (sq @ s @ sq))
      else if startswith coltype ''character'' \<or> startswith coltype ''geography''
      then Inr (sq @ py_str v @ sq)
      else Inr (py_str v))"
  using assms json_not_timestamp [of "coltypes t ! colidx"]
  by (auto simp: stringify_value_def Let_def py_str_def split: sum.splits)

text \<open>The scenario of the specification: the value \<^verbatim>\<open>{"a": 1}\<close> in a JSON column.\<close>

lemma json_column_scenario:
  "PDict [(''a'', PInt 1)] \<noteq> PNone \<and> 0 < length (coltypes (column_of_type ''json'')) \<and>
   stringify_value (column_of_type ''json'') (PDict [(''a'', PInt 1)]) 0 =
     Inr (sq @ ''{'' @ dq @ ''a'' @ dq @ '': 1}'' @ sq)"
proof -
  have h1: "PDict [(''a'', PInt 1)] \<noteq> PNone" by simp
  have h2: "0 < length (coltypes (column_of_type ''json''))" by (simp add: column_of_type_def)
  have "stringify_value (column_of_type ''json'') (PDict [(''a'', PInt 1)]) 0 =
     (let coltype = coltypes (column_of_type ''json'') ! 0 in
      if startswith coltype ''json''
      then (case json_dumps (PDict [(''a'', PInt 1)]) of
              Inl e \<Rightarrow> Inl e | Inr s \<Rightarrow> Inr (sq @ s @ sq))
      else if startswith coltype ''timestamp''
      then (case isoformat (PDict [(''a'', PInt 1)]) of
              Inl e \<Rightarrow> Inl e | Inr s \<Rightarrow> Inr (sq @ s @ sq))
      else if startswith coltype ''character'' \<or> startswith coltype ''geography''
      then Inr (sq @ py_str (PDict [(''a'', PInt 1)]) @ sq)
      else Inr (py_str (PDict [(''a'', PInt 1)])))"
    by (rule stringify_value_by_type [OF h1 h2])
  also have "\<dots> = Inr (sq @ ''{'' @ dq @ ''a'' @ dq @ '': 1}'' @ sq)"
    by code_simp
  finally show ?thesis using h1 h2 by simp
qed

section \<open>Restrictions and the predicate\<close>

text \<open>
  Claim C8: attaching a name that the restriction dictionary already holds raises
  \<^verbatim>\<open>RuntimeError\<close>, which is not the error of the database, and leaves the table as it
  was; attaching a new name with a list of ids succeeds and stores the ids under the name.
\<close>

theorem add_foreign_table_duplicate:
  "(n \<in> set (map fst (foreign_tables t)) \<longrightarrow>
      add_foreign_table t n new_ids = (Some (RuntimeError ''no bueno''), t) \<and>
      fst (add_foreign_table t n new_ids) \<noteq> Some DatabaseError) \<and>
   (n \<notin> set (map fst (foreign_tables t)) \<longrightarrow>
      add_foreign_table t n (Some vs) =
        (None, t\<lparr>foreign_tables := foreign_tables t @ [(n, vs)]\<rparr>) \<and>
      map_of (foreign_tables (snd (add_foreign_table t n (Some vs)))) n = Some vs)"
  by (auto simp: add_foreign_table_def map_add_def image_iff split: option.splits
           dest!: map_of_SomeD)

theorem add_foreign_table_duplicate_witness:
  "''users'' \<in> set (map fst (foreign_tables (orders\<lparr>foreign_tables := [(''users'', [PInt 1])]\<rparr>))) \<and>
   add_foreign_table (orders\<lparr>foreign_tables := [(''users'', [PInt 1])]\<rparr>) ''users'' (Some [PInt 9]) =
     (Some (RuntimeError ''no bueno''), orders\<lparr>foreign_tables := [(''users'', [PInt 1])]\<rparr>) \<and>
   ''users'' \<notin> set (map fst (foreign_tables orders)) \<and>
   add_foreign_table orders ''users'' (Some [PInt 1]) =
     (None, orders\<lparr>foreign_tables := [(''users'', [PInt 1])]\<rparr>)"
proof -
  have h1: "''users'' \<in>
      set (map fst (foreign_tables (orders\<lparr>foreign_tables := [(''users'', [PInt 1])]\<rparr>)))"
    by simp
  have h2: "''users'' \<notin> set (map fst (foreign_tables orders))"
    by (simp add: orders_def)
  from add_foreign_table_duplicate
         [of "''users''" "orders\<lparr>foreign_tables := [(''users'', [PInt 1])]\<rparr>" "Some [PInt 9]"] h1
  have a: "add_foreign_table (orders\<lparr>foreign_tables := [(''users'', [PInt 1])]\<rparr>) ''users''
             (Some [PInt 9]) =
           (Some (RuntimeError ''no bueno''), orders\<lparr>foreign_tables := [(''users'', [PInt 1])]\<rparr>)"
    by blast
  from add_foreign_table_duplicate [of "''users''" orders _ "[PInt 1]"] h2
  have b: "add_foreign_table orders ''users'' (Some [PInt 1]) =
           (None, orders\<lparr>foreign_tables := foreign_tables orders @ [(''users'', [PInt 1])]\<rparr>)"
    by blast
  have c: "foreign_tables orders = []" by (simp add: orders_def)
  show ?thesis using h1 h2 a b c by simp
qed

text \<open>
  Claim C9: with exactly one restriction whose tuple has exactly one element \<open>v\<close>, the
  predicate is \<^verbatim>\<open>WHERE <table>_id in (v,)\<close>, with the comma that Python puts after the
  only element of a tuple.
\<close>

theorem where_clause_single_id:
  assumes "foreign_tables t = [(ftable, [v])]"
  shows "build_where_clause t = ''WHERE '' @ ftable @ ''_id in ('' @ py_repr v @ '',)''"
  using assms by (simp add: build_where_clause_def str_tuple_def)

theorem where_clause_single_id_witness:
  "foreign_tables (orders\<lparr>foreign_tables := [(''users'', [PInt 7])]\<rparr>) = [(''users'', [PInt 7])] \<and>
   build_where_clause (orders\<lparr>foreign_tables := [(''users'', [PInt 7])]\<rparr>) =
     ''WHERE users_id in (7,)''"
proof -
  have h: "foreign_tables (orders\<lparr>foreign_tables := [(''users'', [PInt 7])]\<rparr>) =
           [(''users'', [PInt 7])]"
    by simp
  have "build_where_clause (orders\<lparr>foreign_tables := [(''users'', [PInt 7])]\<rparr>) =
        ''WHERE '' @ ''users'' @ ''_id in ('' @ py_repr (PInt 7) @ '',)''"
    by (rule where_clause_single_id [OF h])
  also have "\<dots> = ''WHERE users_id in (7,)''"
    by code_simp
  finally show ?thesis using h by simp
qed

text \<open>
  Claim C5, as stated, fails: the name of the foreign-key column is written without
  quotes (and the keyword in lower case).
\<close>

theorem where_clause_unquoted_counterexample:
  "build_where_clause (orders\<lparr>foreign_tables := [(''users'', [PInt 1, PInt 2])]\<rparr>) =
     ''WHERE users_id in (1, 2)'' \<and>
   CHR 0x22 \<notin> set (build_where_clause (orders\<lparr>foreign_tables := [(''users'', [PInt 1, PInt 2])]\<rparr>))"
  by code_simp

lemma where_loop:
  "foldl (\<lambda>w (ftable, fids). w @ [ftable @ ''_id in '' @ str_tuple fids]) acc fts =
   acc @ map (\<lambda>(ftable, fids). ftable @ ''_id in '' @ str_tuple fids) fts"
  by (induction fts arbitrary: acc) auto
text \<open>
  Claim C5, amended: without restrictions the predicate is the empty string; otherwise it
  is \<^verbatim>\<open>WHERE\<close> followed by one clause per restriction, in the order of attachment, joined by
  \<^verbatim>\<open>AND\<close>. For restrictions of two or more ids the clause is \<^verbatim>\<open><table>_id in (<id1>, <id2>, ...)\<close>,
  with the name of the column not quoted. (What is written for a tuple of one id or of
  none is left out of the statement.)
\<close>

theorem build_where_clause_form:
  assumes "\<forall>(ftable, fids)\<in>set (foreign_tables t). 2 \<le> length fids"
  shows "build_where_clause t =
     (if foreign_tables t = [] then []
      else ''WHERE '' @ join '' AND ''
             (map (\<lambda>(ftable, fids). ftable @ ''_id in ('' @ join '', '' (map py_repr fids) @ '')'')
                  (foreign_tables t)))"
proof -
  have st: "str_tuple fids = ''('' @ join '', '' (map py_repr fids) @ '')''"
    if "2 \<le> length fids" for fids
    using that by (cases fids) (auto simp: str_tuple_def split: list.splits)
  have eq: "map (\<lambda>(ftable, fids). ftable @ ''_id in '' @ str_tuple fids) (foreign_tables t) =
        map (\<lambda>(ftable, fids). ftable @ ''_id in ('' @ join '', '' (map py_repr fids) @ '')'')
            (foreign_tables t)"
  proof (rule map_cong [OF refl])
    fix x
    assume x: "x \<in> set (foreign_tables t)"
    obtain ftable fids where p: "x = (ftable, fids)" by (cases x)
    with assms x have "2 \<le> length fids" by auto
    from st [OF this] show
      "(case x of (ftable, fids) \<Rightarrow> ftable @ ''_id in '' @ str_tuple fids) =
       (case x of (ftable, fids) \<Rightarrow>
          ftable @ ''_id in ('' @ join '', '' (map py_repr fids) @ '')'')"
      by (simp add: p)
  qed
  show ?thesis
    unfolding build_where_clause_def where_loop eq by simp
qed

theorem build_where_clause_form_witness:
  "build_where_clause
     (orders\<lparr>foreign_tables := [(''users'', [PInt 1, PInt 2]), (''shops'', [PInt 4, PInt 5])]\<rparr>) =
     ''WHERE users_id in (1, 2) AND shops_id in (4, 5)'' \<and>
   build_where_clause orders = []"
proof -
  let ?t = "orders\<lparr>foreign_tables := [(''users'', [PInt 1, PInt 2]), (''shops'', [PInt 4, PInt 5])]\<rparr>"
  have h: "\<forall>(ftable, fids)\<in>set (foreign_tables ?t). 2 \<le> length fids" by simp
  have "build_where_clause ?t =
     (if foreign_tables ?t = [] then []
      else ''WHERE '' @ join '' AND ''
             (map (\<lambda>(ftable, fids). ftable @ ''_id in ('' @ join '', '' (map py_repr fids) @ '')'')
                  (foreign_tables ?t)))"
    by (rule build_where_clause_form [OF h])
  also have "\<dots> = ''WHERE users_id in (1, 2) AND shops_id in (4, 5)''"
    by code_simp
  finally have a: "build_where_clause ?t = ''WHERE users_id in (1, 2) AND shops_id in (4, 5)''" .
  have h0: "\<forall>(ftable, fids)\<in>set (foreign_tables orders). 2 \<le> length fids"
    by (simp add: orders_def)
  have "build_where_clause orders =
     (if foreign_tables orders = [] then []
      else ''WHERE '' @ join '' AND ''
             (map (\<lambda>(ftable, fids). ftable @ ''_id in ('' @ join '', '' (map py_repr fids) @ '')'')
                  (foreign_tables orders)))"
    by (rule build_where_clause_form [OF h0])
  then have b: "build_where_clause orders = []" by (simp add: orders_def)
  show ?thesis using a b by simp
qed

section \<open>The identifier column\<close>

lemma ididx_loop_absent: "''id'' \<notin> set cs \<Longrightarrow> ididx_loop cs i = i + length cs"
  by (induction cs arbitrary: i) auto

lemma ididx_loop_bound: "''id'' \<in> set cs \<Longrightarrow> ididx_loop cs i < i + length cs"
proof (induction cs arbitrary: i)
  case Nil
  then show ?case by simp
next
  case (Cons c cs)
  show ?case
  proof (cases "c = ''id''")
    case True
    then show ?thesis by simp
  next
    case False
    with Cons.prems have "''id'' \<in> set cs" by simp
    from Cons.IH [OF this, of "Suc i"] False show ?thesis by simp
  qed
qed

lemma ididx_absent: "''id'' \<notin> set (columns t) \<Longrightarrow> ididx t = length (columns t)"
  by (simp add: ididx_def ididx_loop_absent)

lemma ididx_present: "''id'' \<in> set (columns t) \<Longrightarrow> ididx t < length (columns t)"
  using ididx_loop_bound [of "columns t" 0] by (simp add: ididx_def)

lemma ididx_loop_takeWhile:
  "ididx_loop cs i = i + length (takeWhile (\<lambda>c. c \<noteq> ''id'') cs)"
  by (induction cs arbitrary: i) auto

lemma ididx_takeWhile: "ididx t = length (takeWhile (\<lambda>c. c \<noteq> ''id'') (columns t))"
  by (simp add: ididx_def ididx_loop_takeWhile)

lemma ididx_names_id: "''id'' \<in> set (columns t) \<Longrightarrow> columns t ! ididx t = ''id''"
  using nth_length_takeWhile [of "\<lambda>c. c \<noteq> ''id''" "columns t"] ididx_present [of t]
  by (simp add: ididx_takeWhile)

lemma ididx_first: "''id'' \<notin> set (take (ididx t) (columns t))"
proof -
  have "take (ididx t) (columns t) = takeWhile (\<lambda>c. c \<noteq> ''id'') (columns t)"
    unfolding ididx_takeWhile by (rule takeWhile_eq_take [symmetric])
  then show ?thesis
    using set_takeWhileD [of "''id''" "\<lambda>c. c \<noteq> ''id''" "columns t"] by auto
qed

text \<open>
  Claim C4 does not hold of the code: without a column named \<^verbatim>\<open>id\<close> the loop leaves the
  counter at the number of columns, not at 0, and reading the row at that position raises
  \<^verbatim>\<open>IndexError\<close>. The table \<open>tags\<close> has the single column \<^verbatim>\<open>name\<close> and the row \<^verbatim>\<open>('a',)\<close>;
  the dump stops after the header, with no id captured.
\<close>

theorem ididx_without_id_column:
  "ididx tags = 1 \<and>
   dump tags tags_cursor [] =
     (Some IndexError, tags, [''INSERT INTO tags ('' @ dq @ ''name'' @ dq @ '') VALUES '' @ nl])"
  by code_simp

section \<open>Sampled dumps\<close>

text \<open>
  Claim C10: when the bounded read of a sampled table returns no row, the dump writes the
  \<^verbatim>\<open>INSERT INTO <table> (<columns>) VALUES\<close> line and a newline, and nothing else (no
  tuple, no semicolon); it captures the empty list of ids and raises no error.
\<close>

theorem dump_no_rows:
  assumes "limit t = Some n"
    and "execute c (select_sql t (quoted_columns t)) = Inr []"
  shows "dump t c outfile =
     (None, t\<lparr>ids := Some []\<rparr>,
      outfile @ [''INSERT INTO '' @ name t @ '' ('' @ quoted_columns t @ '') VALUES '' @ nl, nl])"
  using assms by (simp add: dump_def select_and_insert_def insert_header_def)

theorem dump_no_rows_witness:
  "limit users = Some 2 \<and>
   execute empty_cursor (select_sql users (quoted_columns users)) = Inr [] \<and>
   dump users empty_cursor [] =
     (None, users\<lparr>ids := Some []\<rparr>,
      [''INSERT INTO users ('' @ dq @ ''id'' @ dq @ '','' @ dq @ ''name'' @ dq @ '') VALUES '' @ nl,
       nl])"
proof -
  have h1: "limit users = Some 2" by (simp add: users_def)
  have h2: "execute empty_cursor (select_sql users (quoted_columns users)) = Inr []"
    by (simp add: empty_cursor_def)
  have "dump users empty_cursor [] =
     (None, users\<lparr>ids := Some []\<rparr>,
      [] @ [''INSERT INTO '' @ name users @ '' ('' @ quoted_columns users @ '') VALUES '' @ nl, nl])"
    by (rule dump_no_rows [OF h1 h2])
  then show ?thesis using h1 h2 by (simp add: users_def quoted_columns_def)
qed

lemma insert_rows_success:
  assumes "\<forall>row\<in>set rows. ididx t < length row"
    and "map (mogrify_row t) rows = map Inr tuples"
  shows "insert_rows t rc rows k cap out =
     (Inr (cap @ map (\<lambda>row. row ! ididx t) rows),
      out @ concat (map (\<lambda>(i, s). [s, if i = rc then '';'' @ nl else '','' @ nl])
                        (enumerate k tuples)))"
  using assms
proof (induction rows arbitrary: k cap out tuples)
  case Nil
  then show ?case by simp
next
  case (Cons row rows)
  from Cons.prems(2) obtain s ss where t: "tuples = s # ss"
    and s: "mogrify_row t row = Inr s" and ss: "map (mogrify_row t) rows = map Inr ss"
    by (cases tuples) auto
  from Cons.prems(1) have len: "ididx t < length row" and rest: "\<forall>r\<in>set rows. ididx t < length r"
    by simp_all
  show ?case
    using len s Cons.IH [OF rest ss] by (simp add: t)
qed

lemma insert_rows_Inr:
  assumes "insert_rows t rc rows k cap out = (Inr res, out')"
  shows "(\<forall>row\<in>set rows. ididx t < length row) \<and>
         (\<exists>tuples. map (mogrify_row t) rows = map Inr tuples)"
  using assms
proof (induction rows arbitrary: k cap out)
  case Nil
  then show ?case by simp
next
  case (Cons row rows)
  from Cons.prems have len: "ididx t < length row"
    by (auto split: if_splits)
  with Cons.prems obtain s where s: "mogrify_row t row = Inr s"
    by (cases "mogrify_row t row") auto
  from Cons.prems len s have
    "insert_rows t rc rows (k + 1) (cap @ [row ! ididx t])
       (out @ [s, if k = rc then '';'' @ nl else '','' @ nl]) = (Inr res, out')"
    by simp
  from Cons.IH [OF this] obtain tuples where
    a: "\<forall>r\<in>set rows. ididx t < length r" and b: "map (mogrify_row t) rows = map Inr tuples"
    by blast
  from s b have "map (mogrify_row t) (row # rows) = map Inr (s # tuples)" by simp
  with len a show ?case by (metis set_ConsD)
qed

text \<open>
  Claim C3: take a sampled table with limit \<open>n\<close> and a cursor that honours the
  \<^verbatim>\<open>LIMIT\<close> of the statement it is sent for this table. A dump that returns has read at
  most \<open>n\<close> rows, has captured exactly one value per row read, in the order of reading
  (hence at most \<open>n\<close>), namely the value at the position of the identifier column, and has
  written the header, one tuple per row with its separator, and the closing newline. When
  the table has a column named \<^verbatim>\<open>id\<close>, that position is the one of the first such
  column; and then the dump does return, provided every row has one value per column and
  can be rendered.
\<close>

theorem dump_sampled:
  assumes "limit t = Some n"
    and "\<forall>m rows. execute c (''SELECT '' @ quoted_columns t @ '' FROM public.'' @ dq @ name t @ dq @
                              '' LIMIT '' @ str_nat m) = Inr rows \<longrightarrow> length rows \<le> m"
  shows "(dump t c outfile = (None, t', out) \<longrightarrow>
            (\<exists>rows tuples.
               execute c (select_sql t (quoted_columns t)) = Inr rows \<and>
               length rows \<le> n \<and>
               ids t' = Some (map (\<lambda>row. row ! ididx t) rows) \<and>
               length (the (ids t')) \<le> n \<and>
               map (mogrify_row t) rows = map Inr tuples \<and>
               out = outfile @ [insert_header t (quoted_columns t)] @
                     concat (map (\<lambda>(i, s). [s, if i = length rows then '';'' @ nl else '','' @ nl])
                                 (enumerate 1 tuples)) @ [nl])) \<and>
         (''id'' \<in> set (columns t) \<longrightarrow>
            ididx t < length (columns t) \<and> columns t ! ididx t = ''id'' \<and>
            ''id'' \<notin> set (take (ididx t) (columns t))) \<and>
         (''id'' \<in> set (columns t) \<and>
          execute c (select_sql t (quoted_columns t)) = Inr read \<and>
          (\<forall>row\<in>set read. length row = length (columns t)) \<and>
          map (mogrify_row t) read = map Inr rendered \<longrightarrow>
            (\<exists>t' out. dump t c outfile = (None, t', out)))"
proof (intro conjI impI)
  assume d: "dump t c outfile = (None, t', out)"
  let ?out1 = "outfile @ [insert_header t (quoted_columns t)]"
  from d assms(1) obtain rows where
    ex: "execute c (select_sql t (quoted_columns t)) = Inr rows"
    by (cases "execute c (select_sql t (quoted_columns t))")
       (auto simp: dump_def select_and_insert_def)
  from d assms(1) ex obtain captured out2 where
    ir: "insert_rows t (length rows) rows 1 [] ?out1 = (Inr captured, out2)"
    and t': "t' = t\<lparr>ids := Some captured\<rparr>" and out: "out = out2 @ [nl]"
    by (auto simp: dump_def select_and_insert_def split: sum.splits prod.splits)
  have sql: "select_sql t (quoted_columns t) =
             ''SELECT '' @ quoted_columns t @ '' FROM public.'' @ dq @ name t @ dq @
             '' LIMIT '' @ str_nat n"
    by (simp add: select_sql_def limit_text_def assms(1))
  from assms(2) ex have bound: "length rows \<le> n"
    unfolding sql by blast
  from insert_rows_Inr [OF ir] obtain tuples where
    a: "\<forall>row\<in>set rows. ididx t < length row" and b: "map (mogrify_row t) rows = map Inr tuples"
    by blast
  from insert_rows_success [OF a b, of "length rows" 1 "[]" ?out1] ir
  have cap: "captured = map (\<lambda>row. row ! ididx t) rows"
    and out2: "out2 = ?out1 @ concat (map (\<lambda>(i, s). [s, if i = length rows then '';'' @ nl else '','' @ nl])
                                 (enumerate 1 tuples))"
    by simp_all
  show "\<exists>rows tuples.
               execute c (select_sql t (quoted_columns t)) = Inr rows \<and>
               length rows \<le> n \<and>
               ids t' = Some (map (\<lambda>row. row ! ididx t) rows) \<and>
               length (the (ids t')) \<le> n \<and>
               map (mogrify_row t) rows = map Inr tuples \<and>
               out = outfile @ [insert_header t (quoted_columns t)] @
                     concat (map (\<lambda>(i, s). [s, if i = length rows then '';'' @ nl else '','' @ nl])
                                 (enumerate 1 tuples)) @ [nl]"
    using ex bound b out out2 by (intro exI [of _ rows] exI [of _ tuples]) (simp add: t' cap)
next
  assume "''id'' \<in> set (columns t)"
  then show "ididx t < length (columns t)" by (rule ididx_present)
next
  assume "''id'' \<in> set (columns t)"
  then show "columns t ! ididx t = ''id''" by (rule ididx_names_id)
next
  show "''id'' \<notin> set (take (ididx t) (columns t))" by (rule ididx_first)
next
  assume h: "''id'' \<in> set (columns t) \<and>
          execute c (select_sql t (quoted_columns t)) = Inr read \<and>
          (\<forall>row\<in>set read. length row = length (columns t)) \<and>
          map (mogrify_row t) read = map Inr rendered"
  then have a: "\<forall>row\<in>set read. ididx t < length row"
    using ididx_present [of t] by simp
  from h have b: "map (mogrify_row t) read = map Inr rendered" by simp
  from h have ex: "execute c (select_sql t (quoted_columns t)) = Inr read" by simp
  show "\<exists>t' out. dump t c outfile = (None, t', out)"
    using assms(1) ex
    by (simp add: dump_def select_and_insert_def insert_rows_success [OF a b])
qed

lemma str_nat_not_2: "str_nat 0 \<noteq> ''2'' \<and> str_nat 1 \<noteq> ''2''"
  by code_simp

text \<open>
  The witness is the scenario of the specification: \<open>users\<close> with limit 2 over the rows
  \<^verbatim>\<open>(1,'a'), (2,'b'), (3,'c')\<close> captures the ids 1 and 2 and writes exactly two tuples, in
  the order of the columns.
\<close>

theorem dump_sampled_witness:
  "limit users = Some 2 \<and>
   execute shop_cursor (select_sql users (quoted_columns users)) = Inr (take 2 users_rows) \<and>
   length (take 2 users_rows) \<le> 2 \<and>
   ''id'' \<in> set (columns users) \<and> columns users ! ididx users = ''id'' \<and>
   map length (take 2 users_rows) = [length (columns users), length (columns users)] \<and>
   map (mogrify_row users) (take 2 users_rows) = map Inr [''(1,a)'', ''(2,b)''] \<and>
   dump users shop_cursor [] =
     (None, users\<lparr>ids := Some [PInt 1, PInt 2]\<rparr>,
      [''INSERT INTO users ('' @ dq @ ''id'' @ dq @ '','' @ dq @ ''name'' @ dq @ '') VALUES '' @ nl,
       ''(1,a)'', '','' @ nl, ''(2,b)'', '';'' @ nl, nl]) \<and>
   Some [PInt 1, PInt 2] = Some (map (\<lambda>row. row ! ididx users) (take 2 users_rows)) \<and>
   length [PInt 1, PInt 2] \<le> (2::nat)"
proof -
  let ?t' = "users\<lparr>ids := Some [PInt 1, PInt 2]\<rparr>"
  let ?out = "[''INSERT INTO users ('' @ dq @ ''id'' @ dq @ '','' @ dq @ ''name'' @ dq @ '') VALUES '' @ nl,
           ''(1,a)'', '','' @ nl, ''(2,b)'', '';'' @ nl, nl]"
  have h1: "limit users = Some 2" by (simp add: users_def)
  have q: "quoted_columns users = dq @ ''id'' @ dq @ '','' @ dq @ ''name'' @ dq" by code_simp
  have nm: "name users = ''users''" by (simp add: users_def)
  have h2: "\<forall>m rows. execute shop_cursor
                (''SELECT '' @ quoted_columns users @ '' FROM public.'' @ dq @ name users @ dq @
                 '' LIMIT '' @ str_nat m) = Inr rows \<longrightarrow> length rows \<le> m"
  proof (intro allI impI)
    fix m rows
    assume a: "execute shop_cursor
                (''SELECT '' @ quoted_columns users @ '' FROM public.'' @ dq @ name users @ dq @
                 '' LIMIT '' @ str_nat m) = Inr rows"
    then have s: "str_nat m = ''2''" and r: "rows = take 2 users_rows"
      by (auto simp: shop_cursor_def q nm split: if_splits)
    have "m \<noteq> 0"
    proof
      assume "m = 0"
      with s str_nat_not_2 show False by simp
    qed
    moreover have "m \<noteq> 1"
    proof
      assume "m = 1"
      with s str_nat_not_2 show False by simp
    qed
    ultimately have "2 \<le> m" by simp
    then show "length rows \<le> m" by (simp add: r)
  qed
  have e: "execute shop_cursor (select_sql users (quoted_columns users)) = Inr (take 2 users_rows)"
    by code_simp
  have h4: "''id'' \<in> set (columns users)" by (simp add: users_def)
  have h5: "map length (take 2 users_rows) = [length (columns users), length (columns users)]"
    by code_simp
  have h5': "\<forall>row\<in>set (take 2 users_rows). length row = length (columns users)"
    by (simp add: users_rows_def users_def)
  have h6: "map (mogrify_row users) (take 2 users_rows) = map Inr [''(1,a)'', ''(2,b)'']"
    by code_simp
  note inst = dump_sampled [OF h1 h2, where outfile = "[]" and t' = ?t' and out = ?out
                             and read = "take 2 users_rows"
                             and rendered = "[''(1,a)'', ''(2,b)'']"]
  from inst h4 e h5' h6 have "\<exists>t' out. dump users shop_cursor [] = (None, t', out)"
    by blast
  from inst h4 have pos: "columns users ! ididx users = ''id''" by blast
  have d: "dump users shop_cursor [] = (None, ?t', ?out)" by code_simp
  from inst d obtain rows where
    "execute shop_cursor (select_sql users (quoted_columns users)) = Inr rows"
    "ids ?t' = Some (map (\<lambda>row. row ! ididx users) rows)" "length (the (ids ?t')) \<le> 2"
    by blast
  with e have "ids ?t' = Some (map (\<lambda>row. row ! ididx users) (take 2 users_rows)) \<and>
        length (the (ids ?t')) \<le> 2"
    by simp
  then show ?thesis using h1 e h4 pos h5 h6 d by simp
qed

section \<open>The referential filter\<close>

lemma restrict_full_tables_ok:
  assumes "ids s = Some vs"
    and "\<forall>f\<in>set fs. name s \<notin> set (map fst (foreign_tables f))"
  shows "restrict_full_tables s fs =
     (None, map (\<lambda>f. if fkey_colname s \<in> set (columns f)
                      then f\<lparr>foreign_tables := foreign_tables f @ [(name s, vs)]\<rparr> else f) fs)"
  using assms by (induction fs) (auto simp: add_foreign_table_def)

lemma set_sampled_ids_ok:
  assumes "distinct (map name ss)"
    and "\<forall>s\<in>set ss. ids s \<noteq> None"
    and "\<forall>f\<in>set fs. \<forall>s\<in>set ss. name s \<notin> set (map fst (foreign_tables f))"
  shows "set_sampled_ids ss fs =
     (None, map (\<lambda>f. f\<lparr>foreign_tables := foreign_tables f @
                        map (\<lambda>s. (name s, the (ids s)))
                            (filter (\<lambda>s. fkey_colname s \<in> set (columns f)) ss)\<rparr>) fs)"
  using assms
proof (induction ss arbitrary: fs)
  case Nil
  then show ?case by (simp add: map_idI)
next
  case (Cons s ss)
  from Cons.prems(2) obtain vs where vs: "ids s = Some vs" by auto
  let ?g = "\<lambda>f. if fkey_colname s \<in> set (columns f)
                 then f\<lparr>foreign_tables := foreign_tables f @ [(name s, vs)]\<rparr> else f"
  from Cons.prems(3) have "\<forall>f\<in>set fs. name s \<notin> set (map fst (foreign_tables f))" by simp
  from restrict_full_tables_ok [OF vs this]
  have r: "restrict_full_tables s fs = (None, map ?g fs)" .
  have d: "distinct (map name ss)" using Cons.prems(1) by simp
  have i: "\<forall>s\<in>set ss. ids s \<noteq> None" using Cons.prems(2) by simp
  have n: "\<forall>f\<in>set (map ?g fs). \<forall>s'\<in>set ss. name s' \<notin> set (map fst (foreign_tables f))"
  proof (intro ballI)
    fix f' s'
    assume f': "f' \<in> set (map ?g fs)" and s': "s' \<in> set ss"
    from f' obtain f where f: "f \<in> set fs" "f' = ?g f" by auto
    from Cons.prems(1) s' have ne: "name s' \<noteq> name s" by (force simp: image_iff)
    from Cons.prems(3) f(1) s' have "name s' \<notin> set (map fst (foreign_tables f))" by simp
    with ne f(2) show "name s' \<notin> set (map fst (foreign_tables f'))" by auto
  qed
  show ?case
    using r Cons.IH [OF d i n] vs by (simp add: comp_def)
qed

lemma map_of_restrictions:
  assumes "distinct (map name ss)" and "s \<in> set ss"
  shows "map_of (map (\<lambda>s. (name s, g s)) (filter P ss)) (name s) =
         (if P s then Some (g s) else None)"
  using assms
proof (induction ss)
  case Nil
  then show ?case by simp
next
  case (Cons a ss)
  show ?case
  proof (cases "s = a")
    case True
    with Cons.prems(1) have "name a \<notin> name ` set (filter P ss)" by auto
    then have "map_of (map (\<lambda>s. (name s, g s)) (filter P ss)) (name a) = None"
      by (simp add: map_of_eq_None_iff image_image)
    with True show ?thesis by simp
  next
    case False
    with Cons.prems have s: "s \<in> set ss" and d: "distinct (map name ss)" by simp_all
    from Cons.prems(1) s have "name s \<noteq> name a" by (auto simp: image_iff)
    with Cons.IH [OF d s] show ?thesis by simp
  qed
qed

text \<open>
  Claim C2: when the sampled tables have distinct names and captured ids, and no full table
  holds a restriction under a sampled table's name yet, \<^verbatim>\<open>set_sampled_ids\<close> succeeds and
  leaves every full table \<open>F\<close> with a restriction from the name of a sampled table \<open>S\<close>
  to the ids of \<open>S\<close> exactly when a column of \<open>F\<close> is named \<^verbatim>\<open>S.name + '_id'\<close>, and with no
  restriction under that name otherwise.
\<close>

theorem set_sampled_ids_restricts:
  assumes "distinct (map name sampled_tables)"
    and "\<forall>s\<in>set sampled_tables. ids s \<noteq> None"
    and "\<forall>f\<in>set full_tables. \<forall>s\<in>set sampled_tables.
           name s \<notin> set (map fst (foreign_tables f))"
  shows "\<exists>full'. set_sampled_ids sampled_tables full_tables = (None, full') \<and>
           length full' = length full_tables \<and>
           (\<forall>i<length full_tables. \<forall>s\<in>set sampled_tables.
              name (full' ! i) = name (full_tables ! i) \<and>
              columns (full' ! i) = columns (full_tables ! i) \<and>
              map_of (foreign_tables (full' ! i)) (name s) =
                (if name s @ ''_id'' \<in> set (columns (full_tables ! i)) then ids s else None))"
proof -
  let ?h = "\<lambda>f. f\<lparr>foreign_tables := foreign_tables f @
                        map (\<lambda>s. (name s, the (ids s)))
                            (filter (\<lambda>s. fkey_colname s \<in> set (columns f)) sampled_tables)\<rparr>"
  have eq: "set_sampled_ids sampled_tables full_tables = (None, map ?h full_tables)"
    by (rule set_sampled_ids_ok [OF assms])
  have "map_of (foreign_tables (map ?h full_tables ! i)) (name s) =
          (if name s @ ''_id'' \<in> set (columns (full_tables ! i)) then ids s else None)"
    if i: "i < length full_tables" and s: "s \<in> set sampled_tables" for i s
  proof -
    let ?f = "full_tables ! i"
    from i have fin: "?f \<in> set full_tables" by simp
    with assms(3) s have "name s \<notin> set (map fst (foreign_tables ?f))" by blast
    then have none: "map_of (foreign_tables ?f) (name s) = None"
      by (simp add: map_of_eq_None_iff)
    from assms(2) s obtain vs where vs: "ids s = Some vs" by auto
    show ?thesis
      using i none vs
        map_of_restrictions [OF assms(1) s, of "\<lambda>s. the (ids s)"
                             "\<lambda>s. fkey_colname s \<in> set (columns ?f)"]
      by (simp add: map_add_def fkey_colname_def)
  qed
  with eq show ?thesis by simp
qed

theorem set_sampled_ids_restricts_witness:
  "set_sampled_ids [users\<lparr>ids := Some [PInt 1, PInt 2]\<rparr>] [orders, products] =
     (None, [orders\<lparr>foreign_tables := [(''users'', [PInt 1, PInt 2])]\<rparr>, products]) \<and>
   map_of (foreign_tables (orders\<lparr>foreign_tables := [(''users'', [PInt 1, PInt 2])]\<rparr>)) ''users'' =
     Some [PInt 1, PInt 2] \<and>
   map_of (foreign_tables products) ''users'' = None"
proof -
  let ?s = "users\<lparr>ids := Some [PInt 1, PInt 2]\<rparr>"
  have h1: "distinct (map name [?s])" by simp
  have h2: "\<forall>s\<in>set [?s]. ids s \<noteq> None" by simp
  have h3: "\<forall>f\<in>set [orders, products]. \<forall>s\<in>set [?s].
              name s \<notin> set (map fst (foreign_tables f))"
    by (simp add: orders_def products_def)
  from set_sampled_ids_restricts [OF h1 h2 h3] obtain full' where
    r: "set_sampled_ids [?s] [orders, products] = (None, full')"
    and m: "\<forall>i<length [orders, products]. \<forall>s\<in>set [?s].
              name (full' ! i) = name ([orders, products] ! i) \<and>
              columns (full' ! i) = columns ([orders, products] ! i) \<and>
              map_of (foreign_tables (full' ! i)) (name s) =
                (if name s @ ''_id'' \<in> set (columns ([orders, products] ! i))
                 then ids s else None)"
    by blast
  have e: "set_sampled_ids [?s] [orders, products] =
             (None, [orders\<lparr>foreign_tables := [(''users'', [PInt 1, PInt 2])]\<rparr>, products])"
    by code_simp
  with r have f: "full' = [orders\<lparr>foreign_tables := [(''users'', [PInt 1, PInt 2])]\<rparr>, products]"
    by simp
  from m [rule_format, of 0 ?s]
  have "map_of (foreign_tables (full' ! 0)) (name ?s) =
                 (if name ?s @ ''_id'' \<in> set (columns ([orders, products] ! 0))
                  then ids ?s else None)"
    by simp
  then have a: "map_of (foreign_tables (orders\<lparr>foreign_tables := [(''users'', [PInt 1, PInt 2])]\<rparr>))
                  ''users'' = Some [PInt 1, PInt 2]"
    by (simp add: f users_def orders_def)
  from m [rule_format, of 1 ?s]
  have "map_of (foreign_tables (full' ! 1)) (name ?s) =
                 (if name ?s @ ''_id'' \<in> set (columns ([orders, products] ! 1))
                  then ids ?s else None)"
    by simp
  then have b: "map_of (foreign_tables products) ''users'' = None"
    by (simp add: f users_def products_def)
  show ?thesis using e a b by simp
qed

section \<open>The order of a run\<close>



















end
